theory Spec2Isabelle
  imports Main
begin

section \<open>Data model (src/app.py, lines 39-46)\<close>

text \<open>
  The \<^verbatim>\<open>User\<close> table. \<^verbatim>\<open>id\<close> is the integer primary key (written \<open>id'\<close>,
  since \<open>id\<close> is the identity function of HOL); \<^verbatim>\<open>company_name\<close>, \<^verbatim>\<open>role\<close> and
  \<^verbatim>\<open>confirm_token\<close> are nullable columns, so they are options.
\<close>

record user =
  id' :: int
  company_name :: "string option"
  email :: string
  role :: "string option"
  password_hash :: string
  is_confirmed :: bool
  confirm_token :: "string option"

text \<open>
  Every route ends in one \<^verbatim>\<open>flash(message, category)\<close> and a redirect. The
  \<^verbatim>\<open>"error"\<close> flashes are the constructors below, named by the condition that
  raises them; a \<^verbatim>\<open>"success"\<close> flash is \<open>Inr ()\<close>.
\<close>

datatype error =
    ValidationError          \<comment> \<open>a required form field is missing or empty\<close>
  | PasswordMismatch         \<comment> \<open>register: password and password2 differ\<close>
  | InvalidEmail             \<comment> \<open>validate_email raised EmailNotValidError\<close>
  | DuplicateAccount         \<comment> \<open>register: a row with this e-mail exists\<close>
  | InvalidOrExpiredToken    \<comment> \<open>confirm_email: no row has this token\<close>
  | InvalidCredentials       \<comment> \<open>login: no row, or the password check failed\<close>
  | EmailNotConfirmed        \<comment> \<open>login: the row is not confirmed\<close>

type_synonym result = "error + unit"

text \<open>
  What \<^verbatim>\<open>send_email\<close> prints, and what the SMTP block does on one call: it either
  runs to its end or raises (and the \<^verbatim>\<open>except Exception\<close> swallows it).
\<close>

datatype smtp_outcome = SmtpOk | SmtpRaises

datatype log_line =
    LogNoCredentials                 \<comment> \<open>MAIL_USERNAME or MAIL_PASSWORD is not set\<close>
  | LogSent "string option"          \<comment> \<open>the message went out to this address\<close>
  | LogSendError                     \<comment> \<open>the SMTP block raised\<close>

datatype mail_text =
    ConfirmationText string                       \<comment> \<open>the body with the confirm URL of a token\<close>
  | ContactText string string string string       \<comment> \<open>name, email, subject line, message\<close>

text \<open>
  The collaborators the module imports and the configuration it reads:
  \<^verbatim>\<open>validate_email\<close> (true when it returns, false when it raises
  \<^verbatim>\<open>EmailNotValidError\<close>), bcrypt's two functions (the hash of a password depends
  on a random salt, which is an argument here), and the two mail settings.
\<close>

record env =
  validate_email :: "string \<Rightarrow> bool"
  generate_password_hash :: "string \<Rightarrow> string \<Rightarrow> string"
  check_password_hash :: "string \<Rightarrow> string \<Rightarrow> bool"
  MAIL_USERNAME :: "string option"
  MAIL_PASSWORD :: "string option"

text \<open>
  The state the routes read and write: the rows of the table in insertion order, the
  \<^verbatim>\<open>"user_id"\<close> key of the session, the messages handed to the SMTP server, and
  the lines printed.
\<close>

record state =
  users :: "user list"
  session_user_id :: "int option"
  outbox :: "(string option \<times> mail_text) list"
  stdout :: "log_line list"

definition init :: state where
  "init = \<lparr>users = [], session_user_id = None, outbox = [], stdout = []\<rparr>"

section \<open>Helpers\<close>

text \<open>
  Python's \<^verbatim>\<open>not v\<close> on a form value: \<^verbatim>\<open>request.form.get\<close> gives \<^verbatim>\<open>None\<close>
  for a missing field, and the empty string is falsy too.
\<close>

definition is_falsy :: "string option \<Rightarrow> bool" where
  "is_falsy v = (v = None \<or> v = Some [])"

text \<open>
  \<^verbatim>\<open>User.query.filter_by(...).first()\<close>: the first row, in table order, that
  satisfies the filter, as a handle on the row (its position), or \<open>None\<close>.
  The comparison of a column with a string is SQL equality on text: the strings are
  equal, and a NULL column matches nothing.
\<close>

fun first_row :: "(user \<Rightarrow> bool) \<Rightarrow> user list \<Rightarrow> nat option" where
  "first_row P [] = None"
| "first_row P (u # us) = (if P u then Some 0 else map_option Suc (first_row P us))"

definition by_email :: "string \<Rightarrow> user \<Rightarrow> bool" where
  "by_email e u = (email u = e)"

definition by_confirm_token :: "string \<Rightarrow> user \<Rightarrow> bool" where
  "by_confirm_token t u = (confirm_token u = Some t)"

text \<open>
  The primary key the database gives a new row: one more than the largest key in the
  table, 1 in an empty table.
\<close>

definition next_id :: "user list \<Rightarrow> int" where
  "next_id us = fold max (map id' us) 0 + 1"

section \<open>Sending mail (lines 52-103)\<close>

definition send_email ::
  "env \<Rightarrow> smtp_outcome \<Rightarrow> string option \<Rightarrow> mail_text \<Rightarrow> state \<Rightarrow> state" where
  "send_email env smtp to_email body s =
     (if is_falsy (MAIL_USERNAME env) \<or> is_falsy (MAIL_PASSWORD env)
      then s\<lparr>stdout := stdout s @ [LogNoCredentials]\<rparr>
      else (case smtp of
              SmtpOk \<Rightarrow> s\<lparr>outbox := outbox s @ [(to_email, body)],
                         stdout := stdout s @ [LogSent to_email]\<rparr>
            | SmtpRaises \<Rightarrow> s\<lparr>stdout := stdout s @ [LogSendError]\<rparr>))"

definition send_confirmation_email ::
  "env \<Rightarrow> smtp_outcome \<Rightarrow> string \<Rightarrow> string \<Rightarrow> state \<Rightarrow> state" where
  "send_confirmation_email env smtp to_email token s =
     send_email env smtp (Some to_email) (ConfirmationText token) s"

definition send_contact_email ::
  "env \<Rightarrow> smtp_outcome \<Rightarrow> string \<Rightarrow> string \<Rightarrow> string \<Rightarrow> string \<Rightarrow> state \<Rightarrow> state" where
  "send_contact_email env smtp name_v email_v subject_line message s =
     send_email env smtp (MAIL_USERNAME env) (ContactText name_v email_v subject_line message) s"

section \<open>The routes (lines 124-237)\<close>

text \<open>
  \<^verbatim>\<open>register\<close>. Besides the five form fields it takes what the call draws from
  outside: the salt of the hash, the token \<^verbatim>\<open>secrets.token_urlsafe(32)\<close> returns,
  and the outcome of the SMTP block.
\<close>

definition register ::
  "env \<Rightarrow> string \<Rightarrow> string \<Rightarrow> smtp_outcome \<Rightarrow>
   string option \<Rightarrow> string option \<Rightarrow> string option \<Rightarrow> string option \<Rightarrow> string option \<Rightarrow>
   state \<Rightarrow> result \<times> state" where
  "register env salt token smtp form_name form_email form_role form_password form_password2 s =
     (if is_falsy form_email \<or> is_falsy form_password \<or> is_falsy form_password2
      then (Inl ValidationError, s)
      else if form_password \<noteq> form_password2
      then (Inl PasswordMismatch, s)
      else if \<not> validate_email env (the form_email)
      then (Inl InvalidEmail, s)
      else if first_row (by_email (the form_email)) (users s) \<noteq> None
      then (Inl DuplicateAccount, s)
      else
        let pw_hash = generate_password_hash env salt (the form_password);
            new_user = \<lparr>id' = next_id (users s),
                        company_name = form_name,
                        email = the form_email,
                        role = form_role,
                        password_hash = pw_hash,
                        is_confirmed = False,
                        confirm_token = Some token\<rparr>;
            s1 = s\<lparr>users := users s @ [new_user]\<rparr>
        in (Inr (), send_confirmation_email env smtp (the form_email) token s1))"

definition login :: "env \<Rightarrow> string option \<Rightarrow> string option \<Rightarrow> state \<Rightarrow> result \<times> state" where
  "login env form_email form_password s =
     (if is_falsy form_email \<or> is_falsy form_password
      then (Inl ValidationError, s)
      else (case first_row (by_email (the form_email)) (users s) of
              None \<Rightarrow> (Inl InvalidCredentials, s)
            | Some i \<Rightarrow>
                let u = users s ! i in
                if \<not> check_password_hash env (password_hash u) (the form_password)
                then (Inl InvalidCredentials, s)
                else if \<not> is_confirmed u
                then (Inl EmailNotConfirmed, s)
                else (Inr (), s\<lparr>session_user_id := Some (id' u)\<rparr>)))"

definition logout :: "state \<Rightarrow> result \<times> state" where
  "logout s = (Inr (), s\<lparr>session_user_id := None\<rparr>)"

definition confirm_email :: "string \<Rightarrow> state \<Rightarrow> result \<times> state" where
  "confirm_email token s =
     (case first_row (by_confirm_token token) (users s) of
        None \<Rightarrow> (Inl InvalidOrExpiredToken, s)
      | Some i \<Rightarrow>
          (Inr (), s\<lparr>users := (users s)[i := (users s ! i)\<lparr>is_confirmed := True,
                                                           confirm_token := None\<rparr>]\<rparr>))"

definition contact ::
  "env \<Rightarrow> smtp_outcome \<Rightarrow>
   string option \<Rightarrow> string option \<Rightarrow> string option \<Rightarrow> string option \<Rightarrow>
   state \<Rightarrow> result \<times> state" where
  "contact env smtp form_name form_email form_subject form_message s =
     (if is_falsy form_name \<or> is_falsy form_email \<or> is_falsy form_subject \<or> is_falsy form_message
      then (Inl ValidationError, s)
      else if \<not> validate_email env (the form_email)
      then (Inl InvalidEmail, s)
      else (Inr (), send_contact_email env smtp (the form_name) (the form_email)
                      (the form_subject) (the form_message) s))"

section \<open>Requests and runs\<close>

text \<open>
  One request to a route, with what the route draws from outside while it runs; a run
  handles a list of requests one after the other. The \<^verbatim>\<open>index\<close> route only reads
  the session and the table and is left out.
\<close>

datatype request =
    Register string string smtp_outcome
             "string option" "string option" "string option" "string option" "string option"
  | ConfirmEmail string
  | Login "string option" "string option"
  | Logout
  | SubmitContact smtp_outcome "string option" "string option" "string option" "string option"

fun step :: "env \<Rightarrow> request \<Rightarrow> state \<Rightarrow> result \<times> state" where
  "step env (Register salt token smtp n e r p p2) s = register env salt token smtp n e r p p2 s"
| "step env (ConfirmEmail token) s = confirm_email token s"
| "step env (Login e p) s = login env e p s"
| "step env Logout s = logout s"
| "step env (SubmitContact smtp n e sj m) s = contact env smtp n e sj m s"

fun run :: "env \<Rightarrow> request list \<Rightarrow> state \<Rightarrow> state" where
  "run env [] s = s"
| "run env (r # rs) s = run env rs (snd (step env r s))"

text \<open>A small environment to run the routes on concrete requests.\<close>

definition test_env :: env where
  "test_env = \<lparr>validate_email = (\<lambda>e. CHR ''@'' \<in> set e),
               generate_password_hash = (\<lambda>salt p. salt @ p),
               check_password_hash = (\<lambda>h p. drop (length h - length p) h = p),
               MAIL_USERNAME = Some ''ops@videogen.example'',
               MAIL_PASSWORD = Some ''app-password''\<rparr>"

section \<open>Predicates of the properties\<close>

text \<open>The two shapes an account can have.\<close>

definition account_shape :: "user \<Rightarrow> bool" where
  "account_shape u =
     ((is_confirmed u = False \<and> confirm_token u \<noteq> None) \<or>
      (is_confirmed u = True \<and> confirm_token u = None))"

text \<open>Two requests and the table after the first of them, for concrete runs.\<close>

definition register_ann :: request where
  "register_ann = Register ''salt1'' ''tok-ann'' SmtpOk
     (Some ''Acme'') (Some ''ann@acme.example'') None (Some ''pw-ann'') (Some ''pw-ann'')"

definition register_bob :: request where
  "register_bob = Register ''salt2'' ''tok-bob'' SmtpRaises
     None (Some ''bob@acme.example'') (Some ''editor'') (Some ''pw-bob'') (Some ''pw-bob'')"

definition ann_registered :: state where
  "ann_registered = run test_env [register_ann] init"

text \<open>
  The tokens the accounts of a table hold, in table order, and the tokens the Register
  requests of a run carry (what \<^verbatim>\<open>secrets.token_urlsafe(32)\<close> returns to them).
\<close>

fun held_tokens :: "user list \<Rightarrow> string list" where
  "held_tokens [] = []"
| "held_tokens (u # us) =
     (case confirm_token u of None \<Rightarrow> held_tokens us | Some t \<Rightarrow> t # held_tokens us)"


section \<open>Facts about the helpers\<close>

lemma first_row_None: "first_row P us = None \<longleftrightarrow> (\<forall>u \<in> set us. \<not> P u)"
  by (induction us) auto

lemma first_row_Some:
  "first_row P us = Some i \<Longrightarrow> i < length us \<and> P (us ! i) \<and> (\<forall>j < i. \<not> P (us ! j))"
proof (induction us arbitrary: i)
  case Nil
  then show ?case by simp
next
  case (Cons u us)
  show ?case
  proof (cases "P u")
    case True
    with Cons.prems show ?thesis by simp
  next
    case False
    with Cons.prems obtain k where k: "first_row P us = Some k" "i = Suc k"
      by auto
    from Cons.IH [OF k(1)] have ih: "k < length us" "P (us ! k)" "\<forall>j < k. \<not> P (us ! j)"
      by simp_all
    have "\<forall>j < Suc k. \<not> P ((u # us) ! j)"
    proof (intro allI impI)
      fix j assume "j < Suc k"
      then show "\<not> P ((u # us) ! j)"
        using False ih(3) by (cases j) simp_all
    qed
    with ih k show ?thesis by simp
  qed
qed

lemma users_send_email [simp]: "users (send_email env smtp to_email body s) = users s"
  by (simp add: send_email_def split: smtp_outcome.split)

lemma session_send_email [simp]:
  "session_user_id (send_email env smtp to_email body s) = session_user_id s"
  by (simp add: send_email_def split: smtp_outcome.split)

text \<open>What each route does to the table, one case per branch of the route.\<close>

lemma users_register:
  "users (snd (register env salt token smtp n e r p p2 s)) = users s \<or>
   users (snd (register env salt token smtp n e r p p2 s)) =
     users s @ [\<lparr>id' = next_id (users s), company_name = n, email = the e, role = r,
                 password_hash = generate_password_hash env salt (the p),
                 is_confirmed = False, confirm_token = Some token\<rparr>]"
  by (simp add: register_def send_confirmation_email_def Let_def)

lemma users_confirm_email:
  "users (snd (confirm_email token s)) = users s \<or>
   (\<exists>i < length (users s). by_confirm_token token (users s ! i) \<and>
      users (snd (confirm_email token s)) =
        (users s)[i := (users s ! i)\<lparr>is_confirmed := True, confirm_token := None\<rparr>])"
proof (cases "first_row (by_confirm_token token) (users s)")
  case None
  then show ?thesis by (simp add: confirm_email_def)
next
  case (Some i)
  from first_row_Some [OF Some] have "i < length (users s)" "by_confirm_token token (users s ! i)"
    by simp_all
  with Some show ?thesis by (auto simp: confirm_email_def)
qed

lemma users_login [simp]: "users (snd (login env e p s)) = users s"
  by (simp add: login_def Let_def split: option.split)

lemma users_logout [simp]: "users (snd (logout s)) = users s"
  by (simp add: logout_def)

lemma users_contact [simp]: "users (snd (contact env smtp n e sj m s)) = users s"
  by (simp add: contact_def send_contact_email_def)

section \<open>The two shapes of an account\<close>

lemma shape_step:
  assumes "\<forall>u \<in> set (users s). account_shape u"
  shows "\<forall>u \<in> set (users (snd (step env r s))). account_shape u"
proof (cases r)
  case (Register salt token smtp n e ro p p2)
  with assms users_register [of env salt token smtp n e ro p p2 s] show ?thesis
    by (auto simp: account_shape_def)
next
  case (ConfirmEmail token)
  from users_confirm_email [of token s] show ?thesis
  proof
    assume "users (snd (confirm_email token s)) = users s"
    with assms ConfirmEmail show ?thesis by simp
  next
    assume "\<exists>i < length (users s). by_confirm_token token (users s ! i) \<and>
      users (snd (confirm_email token s)) =
        (users s)[i := (users s ! i)\<lparr>is_confirmed := True, confirm_token := None\<rparr>]"
    then obtain i where i: "users (snd (confirm_email token s)) =
        (users s)[i := (users s ! i)\<lparr>is_confirmed := True, confirm_token := None\<rparr>]"
      by blast
    have "account_shape ((users s ! i)\<lparr>is_confirmed := True, confirm_token := None\<rparr>)"
      by (simp add: account_shape_def)
    with assms i ConfirmEmail show ?thesis
      by (auto dest!: subsetD [OF set_update_subset_insert])
  qed
next
  case (Login e p)
  with assms show ?thesis by simp
next
  case Logout
  with assms show ?thesis by simp
next
  case (SubmitContact smtp n e sj m)
  with assms show ?thesis by simp
qed

lemma shape_run:
  "\<forall>u \<in> set (users s). account_shape u \<Longrightarrow> \<forall>u \<in> set (users (run env rs s)). account_shape u"
proof (induction rs arbitrary: s)
  case Nil
  then show ?case by simp
next
  case (Cons r rs)
  from shape_step [OF Cons.prems] have "\<forall>u \<in> set (users (snd (step env r s))). account_shape u" .
  from Cons.IH [OF this] show ?case by simp
qed

text \<open>
  C1. Whatever requests have been handled since the table was created, every account in
  the table is in one of two shapes: not confirmed and holding a token, or confirmed and
  holding none.
\<close>

theorem account_shape_reachable:
  "\<forall>u \<in> set (users (run env rs init)). account_shape u"
  by (rule shape_run) (simp add: init_def)

theorem account_shape_reachable_witness:
  "map (\<lambda>u. (email u, is_confirmed u, confirm_token u))
     (users (run test_env
        [Register ''salt1'' ''tok-ann'' SmtpOk
           (Some ''Acme'') (Some ''ann@acme.example'') None (Some ''pw-ann'') (Some ''pw-ann''),
         ConfirmEmail ''tok-ann'',
         Register ''salt2'' ''tok-bob'' SmtpRaises
           None (Some ''bob@acme.example'') None (Some ''pw-bob'') (Some ''pw-bob'')]
        init))
   = [(''ann@acme.example'', True, None), (''bob@acme.example'', False, Some ''tok-bob'')] \<and>
   list_all account_shape
     (users (run test_env
        [Register ''salt1'' ''tok-ann'' SmtpOk
           (Some ''Acme'') (Some ''ann@acme.example'') None (Some ''pw-ann'') (Some ''pw-ann''),
         ConfirmEmail ''tok-ann'',
         Register ''salt2'' ''tok-bob'' SmtpRaises
           None (Some ''bob@acme.example'') None (Some ''pw-bob'') (Some ''pw-bob'')]
        init))"
  using account_shape_reachable [of test_env
        "[Register ''salt1'' ''tok-ann'' SmtpOk
           (Some ''Acme'') (Some ''ann@acme.example'') None (Some ''pw-ann'') (Some ''pw-ann''),
         ConfirmEmail ''tok-ann'',
         Register ''salt2'' ''tok-bob'' SmtpRaises
           None (Some ''bob@acme.example'') None (Some ''pw-bob'') (Some ''pw-bob'')]"]
  by (simp add: register_def confirm_email_def send_confirmation_email_def send_email_def
        test_env_def init_def is_falsy_def by_email_def by_confirm_token_def next_id_def
        list_all_iff)

section \<open>One account per e-mail address\<close>

lemma first_row_by_email_None:
  "first_row (by_email e) us = None \<longleftrightarrow> e \<notin> set (map email us)"
  by (auto simp: first_row_None by_email_def)

lemma emails_step:
  assumes "distinct (map email (users s))"
  shows "distinct (map email (users (snd (step env r s))))"
proof (cases r)
  case (Register salt token smtp n e ro p p2)
  show ?thesis
  proof (cases "fst (register env salt token smtp n e ro p p2 s)")
    case (Inl err)
    then have "users (snd (register env salt token smtp n e ro p p2 s)) = users s"
      by (auto simp: register_def Let_def split: if_splits)
    with assms Register show ?thesis by simp
  next
    case (Inr ok)
    then have "first_row (by_email (the e)) (users s) = None"
      and "users (snd (register env salt token smtp n e ro p p2 s)) =
        users s @ [\<lparr>id' = next_id (users s), company_name = n, email = the e, role = ro,
                 password_hash = generate_password_hash env salt (the p),
                 is_confirmed = False, confirm_token = Some token\<rparr>]"
      by (auto simp: register_def send_confirmation_email_def Let_def split: if_splits)
    with assms Register show ?thesis
      by (simp add: first_row_by_email_None)
  qed
next
  case (ConfirmEmail token)
  from users_confirm_email [of token s] have
    "map email (users (snd (confirm_email token s))) = map email (users s)"
    by (auto simp: map_update list_update_same_conv)
  with assms ConfirmEmail show ?thesis by simp
next
  case (Login e p)
  with assms show ?thesis by simp
next
  case Logout
  with assms show ?thesis by simp
next
  case (SubmitContact smtp n e sj m)
  with assms show ?thesis by simp
qed

lemma emails_run:
  "distinct (map email (users s)) \<Longrightarrow> distinct (map email (users (run env rs s)))"
proof (induction rs arbitrary: s)
  case Nil
  then show ?case by simp
next
  case (Cons r rs)
  from emails_step [OF Cons.prems] have "distinct (map email (users (snd (step env r s))))" .
  from Cons.IH [OF this] show ?case by simp
qed

lemma emails_reachable: "distinct (map email (users (run env rs init)))"
  by (rule emails_run) (simp add: init_def)

lemma distinct_map_filter_le_1:
  "distinct (map f xs) \<Longrightarrow> length (filter (\<lambda>x. f x = a) xs) \<le> 1"
proof (induction xs)
  case Nil
  then show ?case by simp
next
  case (Cons x xs)
  show ?case
  proof (cases "f x = a")
    case True
    with Cons.prems have "a \<notin> f ` set xs" by auto
    then have "filter (\<lambda>x. f x = a) xs = []"
      by (auto simp: filter_empty_conv)
    with True show ?thesis by simp
  next
    case False
    with Cons show ?thesis by simp
  qed
qed

section \<open>Register\<close>


lemmas route_defs =
  register_def login_def logout_def confirm_email_def contact_def
  send_confirmation_email_def send_contact_email_def send_email_def
  is_falsy_def by_email_def by_confirm_token_def next_id_def

lemmas fixture_defs = test_env_def init_def register_ann_def register_bob_def ann_registered_def


lemma register_error_state:
  "fst (register env salt token smtp n e r p p2 s) = Inl err \<Longrightarrow>
   snd (register env salt token smtp n e r p p2 s) = s"
  by (auto simp: register_def Let_def split: if_splits)

lemma register_duplicate_email:
  "fst (register env salt token smtp n e r p p2 s) = Inl DuplicateAccount \<Longrightarrow>
   \<exists>em. e = Some em \<and> em \<in> set (map email (users s))"
  by (auto simp: register_def Let_def is_falsy_def first_row_by_email_None split: if_splits)

text \<open>
  C3. A Register call that ends in an error leaves the state, and so the table, as it
  was: no account is created. After an attempt that ends in DuplicateAccount the table
  holds exactly one account with the e-mail of the request.
\<close>

theorem register_error_keeps_store:
  "(fst (register env salt token smtp n e r p p2 s) = Inl err \<longrightarrow>
      snd (register env salt token smtp n e r p p2 s) = s) \<and>
   (s = run env rs init \<and>
    fst (register env salt token smtp n e r p p2 s) = Inl DuplicateAccount \<longrightarrow>
      length (filter (\<lambda>u. Some (email u) = e)
                (users (snd (register env salt token smtp n e r p p2 s)))) = 1)"
proof (intro conjI impI)
  assume "fst (register env salt token smtp n e r p p2 s) = Inl err"
  then show "snd (register env salt token smtp n e r p p2 s) = s"
    by (rule register_error_state)
next
  assume a: "s = run env rs init \<and>
    fst (register env salt token smtp n e r p p2 s) = Inl DuplicateAccount"
  then have same: "snd (register env salt token smtp n e r p p2 s) = s"
    by (intro register_error_state [of _ _ _ _ _ _ _ _ _ _ DuplicateAccount]) blast
  from a obtain em where em: "e = Some em" "em \<in> set (map email (users s))"
    using register_duplicate_email by blast
  have "distinct (map email (users s))"
    using a emails_reachable by simp
  then have "length (filter (\<lambda>u. email u = em) (users s)) \<le> 1"
    by (rule distinct_map_filter_le_1)
  moreover from em(2) have "filter (\<lambda>u. email u = em) (users s) \<noteq> []"
    by (auto simp: filter_empty_conv)
  then have "0 < length (filter (\<lambda>u. email u = em) (users s))"
    by simp
  ultimately have "length (filter (\<lambda>u. email u = em) (users s)) = 1"
    by linarith
  with same em(1) show "length (filter (\<lambda>u. Some (email u) = e)
                      (users (snd (register env salt token smtp n e r p p2 s)))) = 1"
    by simp
qed

theorem register_error_keeps_store_witness:
  "fst (register test_env ''salt'' ''tok'' SmtpOk None (Some ''ann@acme.example'') None
          (Some ''pw'') (Some ''pw'') (run test_env [register_ann] init)) = Inl DuplicateAccount \<and>
   snd (register test_env ''salt'' ''tok'' SmtpOk None (Some ''ann@acme.example'') None
          (Some ''pw'') (Some ''pw'') (run test_env [register_ann] init))
     = run test_env [register_ann] init \<and>
   length (filter (\<lambda>u. Some (email u) = Some ''ann@acme.example'')
     (users (snd (register test_env ''salt'' ''tok'' SmtpOk None (Some ''ann@acme.example'') None
          (Some ''pw'') (Some ''pw'') (run test_env [register_ann] init))))) = 1 \<and>
   snd (register test_env ''salt'' ''tok'' SmtpOk None (Some ''not-an-email'') None
          (Some ''pw'') (Some ''pw'') (run test_env [register_ann] init))
     = run test_env [register_ann] init \<and>
   map email (users (run test_env [register_ann] init)) = [''ann@acme.example'']"
proof -
  have err: "fst (register test_env ''salt'' ''tok'' SmtpOk None (Some ''ann@acme.example'') None
          (Some ''pw'') (Some ''pw'') (run test_env [register_ann] init)) = Inl DuplicateAccount"
    "fst (register test_env ''salt'' ''tok'' SmtpOk None (Some ''not-an-email'') None
          (Some ''pw'') (Some ''pw'') (run test_env [register_ann] init)) = Inl InvalidEmail"
    by (simp_all add: route_defs fixture_defs)
  from err
    register_error_keeps_store [where env = test_env and rs = "[register_ann]"
      and s = "run test_env [register_ann] init" and salt = "''salt''" and token = "''tok''"
      and smtp = SmtpOk and n = None and e = "Some ''ann@acme.example''" and r = None
      and p = "Some ''pw''" and ?p2.0 = "Some ''pw''" and err = DuplicateAccount]
    register_error_keeps_store [where env = test_env and rs = "[register_ann]"
      and s = "run test_env [register_ann] init" and salt = "''salt''" and token = "''tok''"
      and smtp = SmtpOk and n = None and e = "Some ''not-an-email''" and r = None
      and p = "Some ''pw''" and ?p2.0 = "Some ''pw''" and err = InvalidEmail]
  have "snd (register test_env ''salt'' ''tok'' SmtpOk None (Some ''ann@acme.example'') None
          (Some ''pw'') (Some ''pw'') (run test_env [register_ann] init))
     = run test_env [register_ann] init"
    and "length (filter (\<lambda>u. Some (email u) = Some ''ann@acme.example'')
     (users (snd (register test_env ''salt'' ''tok'' SmtpOk None (Some ''ann@acme.example'') None
          (Some ''pw'') (Some ''pw'') (run test_env [register_ann] init))))) = 1"
    and "snd (register test_env ''salt'' ''tok'' SmtpOk None (Some ''not-an-email'') None
          (Some ''pw'') (Some ''pw'') (run test_env [register_ann] init))
     = run test_env [register_ann] init"
    by blast+
  moreover have "map email (users (run test_env [register_ann] init)) = [''ann@acme.example'']"
    by (simp add: route_defs fixture_defs)
  ultimately show ?thesis
    using err(1) by blast
qed

section \<open>Confirmation tokens\<close>

lemma held_tokens_append [simp]: "held_tokens (xs @ ys) = held_tokens xs @ held_tokens ys"
  by (induction xs) (auto split: option.split)









lemma first_row_unique:
  assumes "i < length us" and "P (us ! i)" and "\<And>j. j < length us \<Longrightarrow> P (us ! j) \<Longrightarrow> j = i"
  shows "first_row P us = Some i"
proof (cases "first_row P us")
  case None
  with assms(1,2) show ?thesis by (auto simp: first_row_None)
next
  case (Some k)
  from first_row_Some [OF Some] assms(3) have "k = i" by simp
  with Some show ?thesis by simp
qed




section \<open>Login\<close>

lemma login_found:
  assumes "em \<noteq> []" and "pw \<noteq> []" and "first_row (by_email em) (users s) = Some i"
  shows "login env (Some em) (Some pw) s =
     (if \<not> check_password_hash env (password_hash (users s ! i)) pw
      then (Inl InvalidCredentials, s)
      else if \<not> is_confirmed (users s ! i) then (Inl EmailNotConfirmed, s)
      else (Inr (), s\<lparr>session_user_id := Some (id' (users s ! i))\<rparr>))"
  using assms by (simp add: login_def is_falsy_def Let_def)




section \<open>One account per identifier\<close>

lemma next_id_greater: "u \<in> set us \<Longrightarrow> id' u < next_id us"
proof -
  assume "u \<in> set us"
  then have "id' u \<in> set (0 # map id' us)"
    by simp
  then have "id' u \<le> Max (set (0 # map id' us))"
    by (rule Max_ge [OF finite_set])
  then show ?thesis
    unfolding next_id_def Max.set_eq_fold by linarith
qed

lemma ids_step:
  assumes "distinct (map id' (users s))"
  shows "distinct (map id' (users (snd (step env r s))))"
proof (cases r)
  case (Register salt token smtp n e ro p p2)
  have "next_id (users s) \<notin> id' ` set (users s)"
    using next_id_greater [of _ "users s"] by force
  with assms Register users_register [of env salt token smtp n e ro p p2 s] show ?thesis
    by auto
next
  case (ConfirmEmail token)
  from users_confirm_email [of token s] have
    "map id' (users (snd (confirm_email token s))) = map id' (users s)"
    by (auto simp: map_update list_update_same_conv)
  with assms ConfirmEmail show ?thesis by simp
next
  case (Login e p)
  with assms show ?thesis by simp
next
  case Logout
  with assms show ?thesis by simp
next
  case (SubmitContact smtp n e sj m)
  with assms show ?thesis by simp
qed

lemma ids_run:
  "distinct (map id' (users s)) \<Longrightarrow> distinct (map id' (users (run env rs s)))"
proof (induction rs arbitrary: s)
  case Nil
  then show ?case by simp
next
  case (Cons r rs)
  from ids_step [OF Cons.prems] have "distinct (map id' (users (snd (step env r s))))" .
  from Cons.IH [OF this] show ?case by simp
qed

lemma ids_reachable: "distinct (map id' (users (run env rs init)))"
  by (rule ids_run) (simp add: init_def)

lemma distinct_map_nth_eq:
  assumes "distinct (map f xs)" and "i < length xs" and "j < length xs" and "f (xs ! j) = f (xs ! i)"
  shows "j = i"
proof -
  have "(map f xs ! j = map f xs ! i) = (j = i)"
    using assms(1,2,3) by (intro nth_eq_iff_index_eq) simp_all
  then have "(f (xs ! j) = f (xs ! i)) = (j = i)"
    using assms(2,3) by simp
  with assms(4) show ?thesis
    by blast
qed

text \<open>
  C6. Login with the password that verifies against the stored hash of the account
  with the e-mail: if the account is not confirmed, the answer is EmailNotConfirmed and
  the state, with its session, stays as it was; if the account is confirmed, the answer
  is success and the session holds the identifier of that account, which no other
  account of the table has.
\<close>

theorem login_correct_password:
  assumes "s = run env rs init"
    and "em \<noteq> []" and "pw \<noteq> []"
    and "i < length (users s)" and "email (users s ! i) = em"
    and "check_password_hash env (password_hash (users s ! i)) pw"
  shows "(\<not> is_confirmed (users s ! i) \<longrightarrow>
            login env (Some em) (Some pw) s = (Inl EmailNotConfirmed, s)) \<and>
         (is_confirmed (users s ! i) \<longrightarrow>
            login env (Some em) (Some pw) s
              = (Inr (), s\<lparr>session_user_id := Some (id' (users s ! i))\<rparr>) \<and>
            (\<forall>j < length (users s). id' (users s ! j) = id' (users s ! i) \<longrightarrow> j = i))"
proof -
  have de: "distinct (map email (users s))" and di: "distinct (map id' (users s))"
    using assms(1) emails_reachable ids_reachable by simp_all
  have "first_row (by_email em) (users s) = Some i"
  proof (rule first_row_unique)
    show "i < length (users s)" by fact
    show "by_email em (users s ! i)" using assms(5) by (simp add: by_email_def)
    fix j assume "j < length (users s)" "by_email em (users s ! j)"
    with assms(4,5) show "j = i"
      by (intro distinct_map_nth_eq [OF de]) (simp_all add: by_email_def)
  qed
  from login_found [OF assms(2,3) this] assms(6)
  have "login env (Some em) (Some pw) s =
     (if \<not> is_confirmed (users s ! i) then (Inl EmailNotConfirmed, s)
      else (Inr (), s\<lparr>session_user_id := Some (id' (users s ! i))\<rparr>))"
    by simp
  moreover have "\<forall>j < length (users s). id' (users s ! j) = id' (users s ! i) \<longrightarrow> j = i"
    using distinct_map_nth_eq [OF di assms(4)] by blast
  ultimately show ?thesis by simp
qed

theorem login_correct_password_witness:
  "login test_env (Some ''bob@acme.example'') (Some ''pw-bob'')
     (run test_env [register_ann, register_bob, ConfirmEmail ''tok-ann''] init)
     = (Inl EmailNotConfirmed,
        run test_env [register_ann, register_bob, ConfirmEmail ''tok-ann''] init) \<and>
   fst (login test_env (Some ''ann@acme.example'') (Some ''pw-ann'')
     (run test_env [register_ann, register_bob, ConfirmEmail ''tok-ann''] init)) = Inr () \<and>
   session_user_id (snd (login test_env (Some ''ann@acme.example'') (Some ''pw-ann'')
     (run test_env [register_ann, register_bob, ConfirmEmail ''tok-ann''] init))) = Some 1 \<and>
   map (\<lambda>u. (id' u, email u, is_confirmed u))
     (users (run test_env [register_ann, register_bob, ConfirmEmail ''tok-ann''] init))
     = [(1, ''ann@acme.example'', True), (2, ''bob@acme.example'', False)]"
proof -
  have pre:
    "1 < length (users (run test_env [register_ann, register_bob, ConfirmEmail ''tok-ann''] init))"
    "email (users (run test_env [register_ann, register_bob, ConfirmEmail ''tok-ann''] init) ! 1)
       = ''bob@acme.example''"
    "check_password_hash test_env (password_hash
       (users (run test_env [register_ann, register_bob, ConfirmEmail ''tok-ann''] init) ! 1))
       ''pw-bob''"
    "\<not> is_confirmed (users (run test_env [register_ann, register_bob, ConfirmEmail ''tok-ann''] init) ! 1)"
    "0 < length (users (run test_env [register_ann, register_bob, ConfirmEmail ''tok-ann''] init))"
    "email (users (run test_env [register_ann, register_bob, ConfirmEmail ''tok-ann''] init) ! 0)
       = ''ann@acme.example''"
    "check_password_hash test_env (password_hash
       (users (run test_env [register_ann, register_bob, ConfirmEmail ''tok-ann''] init) ! 0))
       ''pw-ann''"
    "is_confirmed (users (run test_env [register_ann, register_bob, ConfirmEmail ''tok-ann''] init) ! 0)"
    by (simp_all add: route_defs fixture_defs)
  have bob: "login test_env (Some ''bob@acme.example'') (Some ''pw-bob'')
     (run test_env [register_ann, register_bob, ConfirmEmail ''tok-ann''] init)
     = (Inl EmailNotConfirmed,
        run test_env [register_ann, register_bob, ConfirmEmail ''tok-ann''] init)"
    using login_correct_password [OF refl _ _ pre(1) pre(2) pre(3)] pre(4) by simp
  have ann: "login test_env (Some ''ann@acme.example'') (Some ''pw-ann'')
     (run test_env [register_ann, register_bob, ConfirmEmail ''tok-ann''] init)
     = (Inr (), (run test_env [register_ann, register_bob, ConfirmEmail ''tok-ann''] init)
          \<lparr>session_user_id := Some (id'
             (users (run test_env [register_ann, register_bob, ConfirmEmail ''tok-ann''] init) ! 0))\<rparr>)"
    using login_correct_password [OF refl _ _ pre(5) pre(6) pre(7)] pre(8) by simp
  have tab: "map (\<lambda>u. (id' u, email u, is_confirmed u))
     (users (run test_env [register_ann, register_bob, ConfirmEmail ''tok-ann''] init))
     = [(1, ''ann@acme.example'', True), (2, ''bob@acme.example'', False)]"
    by (simp add: route_defs fixture_defs)
  from tab have "id' (users (run test_env [register_ann, register_bob, ConfirmEmail ''tok-ann''] init) ! 0) = 1"
    by (simp add: route_defs fixture_defs)
  with bob ann tab show ?thesis
    by simp
qed

section \<open>Mail failures\<close>

lemma send_email_raises:
  "outbox (send_email env SmtpRaises to_email body s) = outbox s"
  by (simp add: send_email_def)

text \<open>
  C7. What the mail dispatcher does never changes what a request answers. Register
  gives the same answer and the same table whether the SMTP block runs or raises; when
  its checks pass and the block raises, the answer is success, the row is in the table
  and nothing went out. SubmitContact with four non-empty fields and an e-mail the
  validator accepts answers success whatever the block does, also when it raises and
  nothing goes out.
\<close>

theorem mail_failure_keeps_result:
  "fst (register env salt token smtp n e r p p2 s)
     = fst (register env salt token SmtpOk n e r p p2 s) \<and>
   users (snd (register env salt token smtp n e r p p2 s))
     = users (snd (register env salt token SmtpOk n e r p p2 s)) \<and>
   (em \<noteq> [] \<and> pw \<noteq> [] \<and> validate_email env em \<and> (\<forall>u \<in> set (users s). email u \<noteq> em) \<longrightarrow>
      fst (register env salt token SmtpRaises n (Some em) r (Some pw) (Some pw) s) = Inr () \<and>
      map email (users (snd (register env salt token SmtpRaises n (Some em) r (Some pw) (Some pw) s)))
        = map email (users s) @ [em] \<and>
      outbox (snd (register env salt token SmtpRaises n (Some em) r (Some pw) (Some pw) s))
        = outbox s) \<and>
   (nm \<noteq> [] \<and> em \<noteq> [] \<and> sj \<noteq> [] \<and> msg \<noteq> [] \<and> validate_email env em \<longrightarrow>
      fst (contact env smtp (Some nm) (Some em) (Some sj) (Some msg) s) = Inr () \<and>
      outbox (snd (contact env SmtpRaises (Some nm) (Some em) (Some sj) (Some msg) s))
        = outbox s)"
proof (intro conjI impI)
  show "fst (register env salt token smtp n e r p p2 s)
     = fst (register env salt token SmtpOk n e r p p2 s)"
    by (simp add: register_def Let_def)
  show "users (snd (register env salt token smtp n e r p p2 s))
     = users (snd (register env salt token SmtpOk n e r p p2 s))"
    by (simp add: register_def Let_def send_confirmation_email_def)
next
  assume a: "em \<noteq> [] \<and> pw \<noteq> [] \<and> validate_email env em \<and> (\<forall>u \<in> set (users s). email u \<noteq> em)"
  then have none: "first_row (by_email em) (users s) = None"
    by (simp add: first_row_None by_email_def)
  from a none
  show "fst (register env salt token SmtpRaises n (Some em) r (Some pw) (Some pw) s) = Inr ()"
    by (simp add: register_def is_falsy_def Let_def)
  from a none
  show "map email (users (snd (register env salt token SmtpRaises n (Some em) r (Some pw) (Some pw) s)))
        = map email (users s) @ [em]"
    by (simp add: register_def is_falsy_def Let_def send_confirmation_email_def)
  from a none
  show "outbox (snd (register env salt token SmtpRaises n (Some em) r (Some pw) (Some pw) s))
        = outbox s"
    by (simp add: register_def is_falsy_def Let_def send_confirmation_email_def send_email_raises)
next
  assume a: "nm \<noteq> [] \<and> em \<noteq> [] \<and> sj \<noteq> [] \<and> msg \<noteq> [] \<and> validate_email env em"
  then show "fst (contact env smtp (Some nm) (Some em) (Some sj) (Some msg) s) = Inr ()"
    by (simp add: contact_def is_falsy_def)
  from a show "outbox (snd (contact env SmtpRaises (Some nm) (Some em) (Some sj) (Some msg) s))
        = outbox s"
    by (simp add: contact_def is_falsy_def send_contact_email_def send_email_raises)
qed

theorem mail_failure_keeps_result_witness:
  "fst (register test_env ''salt2'' ''tok-bob'' SmtpRaises None (Some ''bob@acme.example'')
          (Some ''editor'') (Some ''pw-bob'') (Some ''pw-bob'') ann_registered) = Inr () \<and>
   map email (users (snd (register test_env ''salt2'' ''tok-bob'' SmtpRaises None
          (Some ''bob@acme.example'') (Some ''editor'') (Some ''pw-bob'') (Some ''pw-bob'')
          ann_registered)))
     = [''ann@acme.example'', ''bob@acme.example''] \<and>
   stdout (snd (register test_env ''salt2'' ''tok-bob'' SmtpRaises None
          (Some ''bob@acme.example'') (Some ''editor'') (Some ''pw-bob'') (Some ''pw-bob'')
          ann_registered))
     = [LogSent (Some ''ann@acme.example''), LogSendError] \<and>
   outbox (snd (register test_env ''salt2'' ''tok-bob'' SmtpRaises None
          (Some ''bob@acme.example'') (Some ''editor'') (Some ''pw-bob'') (Some ''pw-bob'')
          ann_registered))
     = [(Some ''ann@acme.example'', ConfirmationText ''tok-ann'')] \<and>
   contact test_env SmtpRaises (Some ''Dan'') (Some ''dan@acme.example'') (Some ''Hello'')
          (Some ''A question'') init
     = (Inr (), init\<lparr>stdout := [LogSendError]\<rparr>)"
  using mail_failure_keeps_result [where env = test_env and salt = "''salt2''"
      and token = "''tok-bob''" and smtp = SmtpRaises and n = None and r = "Some ''editor''"
      and e = "Some ''bob@acme.example''" and p = "Some ''pw-bob''" and ?p2.0 = "Some ''pw-bob''"
      and s = ann_registered and em = "''bob@acme.example''" and pw = "''pw-bob''"
      and nm = "''Dan''" and sj = "''Hello''" and msg = "''A question''"]
    mail_failure_keeps_result [where env = test_env and smtp = SmtpRaises and s = init
      and em = "''dan@acme.example''" and nm = "''Dan''" and sj = "''Hello''"
      and msg = "''A question''"]
  by (simp add: route_defs fixture_defs)

section \<open>Confirmation is never undone\<close>

lemma confirmed_step:
  assumes "i < length (users s)"
  shows "i < length (users (snd (step env r s))) \<and>
         id' (users (snd (step env r s)) ! i) = id' (users s ! i) \<and>
         email (users (snd (step env r s)) ! i) = email (users s ! i) \<and>
         (is_confirmed (users s ! i) \<longrightarrow> is_confirmed (users (snd (step env r s)) ! i))"
proof (cases r)
  case (Register salt token smtp n e ro p p2)
  with assms users_register [of env salt token smtp n e ro p p2 s] show ?thesis
    by (auto simp: nth_append)
next
  case (ConfirmEmail token)
  from users_confirm_email [of token s] show ?thesis
  proof
    assume "users (snd (confirm_email token s)) = users s"
    with assms ConfirmEmail show ?thesis by simp
  next
    assume "\<exists>k < length (users s). by_confirm_token token (users s ! k) \<and>
      users (snd (confirm_email token s)) =
        (users s)[k := (users s ! k)\<lparr>is_confirmed := True, confirm_token := None\<rparr>]"
    then obtain k where "k < length (users s)" "users (snd (confirm_email token s)) =
        (users s)[k := (users s ! k)\<lparr>is_confirmed := True, confirm_token := None\<rparr>]"
      by blast
    with assms ConfirmEmail show ?thesis
      by (auto simp: nth_list_update)
  qed
next
  case (Login e p)
  with assms show ?thesis by simp
next
  case Logout
  with assms show ?thesis by simp
next
  case (SubmitContact smtp n e sj m)
  with assms show ?thesis by simp
qed

lemma confirmed_run:
  "i < length (users s) \<Longrightarrow>
     i < length (users (run env rs s)) \<and>
     id' (users (run env rs s) ! i) = id' (users s ! i) \<and>
     email (users (run env rs s) ! i) = email (users s ! i) \<and>
     (is_confirmed (users s ! i) \<longrightarrow> is_confirmed (users (run env rs s) ! i))"
proof (induction rs arbitrary: s)
  case Nil
  then show ?case by simp
next
  case (Cons r rs)
  from confirmed_step [OF Cons.prems, of env r]
  have st: "i < length (users (snd (step env r s)))"
    "id' (users (snd (step env r s)) ! i) = id' (users s ! i)"
    "email (users (snd (step env r s)) ! i) = email (users s ! i)"
    "is_confirmed (users s ! i) \<longrightarrow> is_confirmed (users (snd (step env r s)) ! i)"
    by simp_all
  from Cons.IH [OF st(1)] st show ?case
    by simp
qed

text \<open>
  C8. An account is created with is_confirmed false, and no request takes a confirmed
  account back: an account (a row of the table, with its identifier and e-mail) that is
  confirmed in some state is still there and still confirmed after any further
  requests, Register, ConfirmEmail, Login, Logout or SubmitContact.
\<close>

theorem confirmed_stays_confirmed:
  "(fst (register env salt token smtp n e r p p2 s) = Inr () \<longrightarrow>
      butlast (users (snd (register env salt token smtp n e r p p2 s))) = users s \<and>
      users (snd (register env salt token smtp n e r p p2 s)) \<noteq> [] \<and>
      is_confirmed (last (users (snd (register env salt token smtp n e r p p2 s)))) = False) \<and>
   (i < length (users s) \<and> is_confirmed (users s ! i) \<longrightarrow>
      i < length (users (run env rs s)) \<and>
      id' (users (run env rs s) ! i) = id' (users s ! i) \<and>
      email (users (run env rs s) ! i) = email (users s ! i) \<and>
      is_confirmed (users (run env rs s) ! i))"
proof (intro conjI impI)
  assume ok: "fst (register env salt token smtp n e r p p2 s) = Inr ()"
  then have "users (snd (register env salt token smtp n e r p p2 s)) =
     users s @ [\<lparr>id' = next_id (users s), company_name = n, email = the e, role = r,
                 password_hash = generate_password_hash env salt (the p),
                 is_confirmed = False, confirm_token = Some token\<rparr>]"
    by (auto simp: register_def send_confirmation_email_def Let_def split: if_splits)
  then show "butlast (users (snd (register env salt token smtp n e r p p2 s))) = users s"
    and "users (snd (register env salt token smtp n e r p p2 s)) \<noteq> []"
    and "is_confirmed (last (users (snd (register env salt token smtp n e r p p2 s)))) = False"
    by simp_all
next
  assume a: "i < length (users s) \<and> is_confirmed (users s ! i)"
  with confirmed_run [of i s env rs]
  show "i < length (users (run env rs s))"
    and "id' (users (run env rs s) ! i) = id' (users s ! i)"
    and "email (users (run env rs s) ! i) = email (users s ! i)"
    and "is_confirmed (users (run env rs s) ! i)"
    by simp_all
qed

theorem confirmed_stays_confirmed_witness:
  "fst (register test_env ''salt1'' ''tok-ann'' SmtpOk (Some ''Acme'') (Some ''ann@acme.example'')
          None (Some ''pw-ann'') (Some ''pw-ann'') init) = Inr () \<and>
   is_confirmed (last (users (snd (register test_env ''salt1'' ''tok-ann'' SmtpOk (Some ''Acme'')
          (Some ''ann@acme.example'') None (Some ''pw-ann'') (Some ''pw-ann'') init)))) = False \<and>
   is_confirmed (users (run test_env [register_ann, ConfirmEmail ''tok-ann''] init) ! 0) \<and>
   map (\<lambda>u. (email u, is_confirmed u))
     (users (run test_env
        [register_bob, ConfirmEmail ''tok-ann'', Login (Some ''ann@acme.example'') (Some ''pw-ann''),
         Logout, register_ann,
         SubmitContact SmtpOk (Some ''Ann'') (Some ''ann@acme.example'') (Some ''Hi'') (Some ''Hello'')]
        (run test_env [register_ann, ConfirmEmail ''tok-ann''] init)))
     = [(''ann@acme.example'', True), (''bob@acme.example'', False)]"
proof -
  have pre: "fst (register test_env ''salt1'' ''tok-ann'' SmtpOk (Some ''Acme'')
          (Some ''ann@acme.example'') None (Some ''pw-ann'') (Some ''pw-ann'') init) = Inr ()"
    "0 < length (users (run test_env [register_ann, ConfirmEmail ''tok-ann''] init))"
    "is_confirmed (users (run test_env [register_ann, ConfirmEmail ''tok-ann''] init) ! 0)"
    by (simp_all add: route_defs fixture_defs)
  from pre
    confirmed_stays_confirmed [where env = test_env and salt = "''salt1''" and token = "''tok-ann''"
      and smtp = SmtpOk and n = "Some ''Acme''" and e = "Some ''ann@acme.example''" and r = None
      and p = "Some ''pw-ann''" and ?p2.0 = "Some ''pw-ann''" and s = init and i = 0 and rs = "[]"]
    confirmed_stays_confirmed [where env = test_env
      and s = "run test_env [register_ann, ConfirmEmail ''tok-ann''] init" and i = 0
      and rs = "[register_bob, ConfirmEmail ''tok-ann'',
         Login (Some ''ann@acme.example'') (Some ''pw-ann''),
         Logout, register_ann,
         SubmitContact SmtpOk (Some ''Ann'') (Some ''ann@acme.example'') (Some ''Hi'') (Some ''Hello'')]"]
  show ?thesis
    by (simp add: route_defs fixture_defs)
qed

section \<open>E-mail addresses are compared as they were typed\<close>

lemma register_fresh_email:
  assumes "em \<noteq> []" and "pw \<noteq> []" and "validate_email env em"
    and "\<forall>u \<in> set (users s). email u \<noteq> em"
  shows "fst (register env salt token smtp n (Some em) r (Some pw) (Some pw) s) = Inr ()"
    and "map email (users (snd (register env salt token smtp n (Some em) r (Some pw) (Some pw) s)))
           = map email (users s) @ [em]"
proof -
  from assms(4) have none: "first_row (by_email em) (users s) = None"
    by (simp add: first_row_None by_email_def)
  with assms show "fst (register env salt token smtp n (Some em) r (Some pw) (Some pw) s) = Inr ()"
    by (simp add: register_def is_falsy_def Let_def)
  from none assms
  show "map email (users (snd (register env salt token smtp n (Some em) r (Some pw) (Some pw) s)))
           = map email (users s) @ [em]"
    by (simp add: register_def is_falsy_def Let_def send_confirmation_email_def)
qed

text \<open>
  C9. E-mail addresses are compared by equality of the strings as submitted, and stored
  as submitted. A lookup by e-mail finds only a row whose e-mail is that very string.
  So for any two different strings that the validator accepts, and in particular for two
  that differ only in the case of their letters, registering the one and then the other
  succeeds twice and leaves two accounts, each with its e-mail as typed; and after
  registering only the first, Login with the second answers InvalidCredentials, whatever
  the password.
\<close>

theorem email_compared_exactly:
  "(first_row (by_email e) us = Some i \<longrightarrow> email (us ! i) = e) \<and>
   (e1 \<noteq> e2 \<and> e1 \<noteq> [] \<and> e2 \<noteq> [] \<and> pw1 \<noteq> [] \<and> pw2 \<noteq> [] \<and>
    validate_email env e1 \<and> validate_email env e2 \<and>
    (\<forall>u \<in> set (users s). email u \<noteq> e1 \<and> email u \<noteq> e2) \<longrightarrow>
      fst (register env salt1 token1 smtp1 n1 (Some e1) r1 (Some pw1) (Some pw1) s) = Inr () \<and>
      login env (Some e2) (Some pw)
          (snd (register env salt1 token1 smtp1 n1 (Some e1) r1 (Some pw1) (Some pw1) s))
        = (if pw = [] then Inl ValidationError else Inl InvalidCredentials,
           snd (register env salt1 token1 smtp1 n1 (Some e1) r1 (Some pw1) (Some pw1) s)) \<and>
      fst (register env salt2 token2 smtp2 n2 (Some e2) r2 (Some pw2) (Some pw2)
            (snd (register env salt1 token1 smtp1 n1 (Some e1) r1 (Some pw1) (Some pw1) s)))
        = Inr () \<and>
      map email (users (snd (register env salt2 token2 smtp2 n2 (Some e2) r2 (Some pw2) (Some pw2)
            (snd (register env salt1 token1 smtp1 n1 (Some e1) r1 (Some pw1) (Some pw1) s)))))
        = map email (users s) @ [e1, e2])"
proof (intro conjI impI)
  assume "first_row (by_email e) us = Some i"
  from first_row_Some [OF this] show "email (us ! i) = e"
    by (simp add: by_email_def)
next
  assume a: "e1 \<noteq> e2 \<and> e1 \<noteq> [] \<and> e2 \<noteq> [] \<and> pw1 \<noteq> [] \<and> pw2 \<noteq> [] \<and>
    validate_email env e1 \<and> validate_email env e2 \<and>
    (\<forall>u \<in> set (users s). email u \<noteq> e1 \<and> email u \<noteq> e2)"
  let ?s1 = "snd (register env salt1 token1 smtp1 n1 (Some e1) r1 (Some pw1) (Some pw1) s)"
  from a have f1: "\<forall>u \<in> set (users s). email u \<noteq> e1"
    by blast
  from a have ne: "e1 \<noteq> []" "e2 \<noteq> []" "pw1 \<noteq> []" "pw2 \<noteq> []"
    and v: "validate_email env e1" "validate_email env e2"
    by blast+
  show "fst (register env salt1 token1 smtp1 n1 (Some e1) r1 (Some pw1) (Some pw1) s) = Inr ()"
    using ne(1,3) v(1) f1 by (rule register_fresh_email(1))
  have m1: "map email (users ?s1) = map email (users s) @ [e1]"
    using ne(1,3) v(1) f1 by (rule register_fresh_email(2))
  have "e2 \<notin> set (map email (users ?s1))"
    using a by (auto simp: m1)
  then have f2: "\<forall>u \<in> set (users ?s1). email u \<noteq> e2"
    by auto
  then have "first_row (by_email e2) (users ?s1) = None"
    by (simp add: first_row_None by_email_def)
  with ne(2) show "login env (Some e2) (Some pw) ?s1
      = (if pw = [] then Inl ValidationError else Inl InvalidCredentials, ?s1)"
    by (simp add: login_def is_falsy_def)
  show "fst (register env salt2 token2 smtp2 n2 (Some e2) r2 (Some pw2) (Some pw2) ?s1) = Inr ()"
    using ne(2,4) v(2) f2 by (rule register_fresh_email(1))
  have "map email (users (snd (register env salt2 token2 smtp2 n2 (Some e2) r2 (Some pw2) (Some pw2) ?s1)))
      = map email (users ?s1) @ [e2]"
    using ne(2,4) v(2) f2 by (rule register_fresh_email(2))
  with m1 show "map email (users (snd (register env salt2 token2 smtp2 n2 (Some e2) r2
      (Some pw2) (Some pw2) ?s1))) = map email (users s) @ [e1, e2]"
    by simp
qed

theorem email_compared_exactly_witness:
  "fst (register test_env ''salt1'' ''tok1'' SmtpOk None (Some ''Ann@Acme.example'') None
          (Some ''pw-ann'') (Some ''pw-ann'') init) = Inr () \<and>
   login test_env (Some ''ann@acme.example'') (Some ''pw-ann'')
       (snd (register test_env ''salt1'' ''tok1'' SmtpOk None (Some ''Ann@Acme.example'') None
          (Some ''pw-ann'') (Some ''pw-ann'') init))
     = (Inl InvalidCredentials,
        snd (register test_env ''salt1'' ''tok1'' SmtpOk None (Some ''Ann@Acme.example'') None
          (Some ''pw-ann'') (Some ''pw-ann'') init)) \<and>
   fst (register test_env ''salt2'' ''tok2'' SmtpOk None (Some ''ann@acme.example'') None
          (Some ''pw-2'') (Some ''pw-2'')
          (snd (register test_env ''salt1'' ''tok1'' SmtpOk None (Some ''Ann@Acme.example'') None
             (Some ''pw-ann'') (Some ''pw-ann'') init))) = Inr () \<and>
   map email (users (snd (register test_env ''salt2'' ''tok2'' SmtpOk None
          (Some ''ann@acme.example'') None (Some ''pw-2'') (Some ''pw-2'')
          (snd (register test_env ''salt1'' ''tok1'' SmtpOk None (Some ''Ann@Acme.example'') None
             (Some ''pw-ann'') (Some ''pw-ann'') init)))))
     = [''Ann@Acme.example'', ''ann@acme.example''] \<and>
   first_row (by_email ''Ann@Acme.example'')
     (users (snd (register test_env ''salt1'' ''tok1'' SmtpOk None (Some ''Ann@Acme.example'') None
          (Some ''pw-ann'') (Some ''pw-ann'') init))) = Some 0"
  using email_compared_exactly [where env = test_env and s = init
      and ?e1.0 = "''Ann@Acme.example''" and ?e2.0 = "''ann@acme.example''"
      and ?pw1.0 = "''pw-ann''" and ?pw2.0 = "''pw-2''" and pw = "''pw-ann''"
      and ?salt1.0 = "''salt1''" and ?salt2.0 = "''salt2''"
      and ?token1.0 = "''tok1''" and ?token2.0 = "''tok2''"
      and ?smtp1.0 = SmtpOk and ?smtp2.0 = SmtpOk
      and ?n1.0 = None and ?n2.0 = None and ?r1.0 = None and ?r2.0 = None
      and e = "''Ann@Acme.example''" and i = 0
      and us = "users (snd (register test_env ''salt1'' ''tok1'' SmtpOk None
          (Some ''Ann@Acme.example'') None (Some ''pw-ann'') (Some ''pw-ann'') init))"]
  by (simp add: route_defs fixture_defs)

section \<open>What ConfirmEmail leaves alone\<close>

text \<open>
  C10. A ConfirmEmail that succeeds changes one row of the table, the first that holds
  the token (the only one, when tokens are not repeated), and in that row only
  is_confirmed and confirm_token: its id, e-mail, password hash, company name and role
  are as before, every other row is as before, the table has as many rows as before,
  and the session, the outbox and the printed lines are untouched.
\<close>

theorem confirm_email_frame:
  "fst (confirm_email t s) = Inr () \<longrightarrow>
   (\<exists>i < length (users s).
      confirm_token (users s ! i) = Some t \<and>
      (\<forall>j < i. confirm_token (users s ! j) \<noteq> Some t) \<and>
      snd (confirm_email t s)
        = s\<lparr>users := (users s)[i := (users s ! i)\<lparr>is_confirmed := True,
                                                    confirm_token := None\<rparr>]\<rparr> \<and>
      length (users (snd (confirm_email t s))) = length (users s) \<and>
      (\<forall>j < length (users s). j \<noteq> i \<longrightarrow> users (snd (confirm_email t s)) ! j = users s ! j) \<and>
      is_confirmed (users (snd (confirm_email t s)) ! i) = True \<and>
      confirm_token (users (snd (confirm_email t s)) ! i) = None \<and>
      id' (users (snd (confirm_email t s)) ! i) = id' (users s ! i) \<and>
      email (users (snd (confirm_email t s)) ! i) = email (users s ! i) \<and>
      password_hash (users (snd (confirm_email t s)) ! i) = password_hash (users s ! i) \<and>
      company_name (users (snd (confirm_email t s)) ! i) = company_name (users s ! i) \<and>
      role (users (snd (confirm_email t s)) ! i) = role (users s ! i) \<and>
      session_user_id (snd (confirm_email t s)) = session_user_id s \<and>
      outbox (snd (confirm_email t s)) = outbox s \<and>
      stdout (snd (confirm_email t s)) = stdout s)"
proof
  assume ok: "fst (confirm_email t s) = Inr ()"
  then obtain i where i: "first_row (by_confirm_token t) (users s) = Some i"
    by (cases "first_row (by_confirm_token t) (users s)") (auto simp: confirm_email_def)
  from first_row_Some [OF i]
  have fr: "i < length (users s)" "confirm_token (users s ! i) = Some t"
    "\<forall>j < i. confirm_token (users s ! j) \<noteq> Some t"
    by (simp_all add: by_confirm_token_def)
  from i have eq: "snd (confirm_email t s)
        = s\<lparr>users := (users s)[i := (users s ! i)\<lparr>is_confirmed := True,
                                                    confirm_token := None\<rparr>]\<rparr>"
    by (simp add: confirm_email_def)
  show "\<exists>i < length (users s).
      confirm_token (users s ! i) = Some t \<and>
      (\<forall>j < i. confirm_token (users s ! j) \<noteq> Some t) \<and>
      snd (confirm_email t s)
        = s\<lparr>users := (users s)[i := (users s ! i)\<lparr>is_confirmed := True,
                                                    confirm_token := None\<rparr>]\<rparr> \<and>
      length (users (snd (confirm_email t s))) = length (users s) \<and>
      (\<forall>j < length (users s). j \<noteq> i \<longrightarrow> users (snd (confirm_email t s)) ! j = users s ! j) \<and>
      is_confirmed (users (snd (confirm_email t s)) ! i) = True \<and>
      confirm_token (users (snd (confirm_email t s)) ! i) = None \<and>
      id' (users (snd (confirm_email t s)) ! i) = id' (users s ! i) \<and>
      email (users (snd (confirm_email t s)) ! i) = email (users s ! i) \<and>
      password_hash (users (snd (confirm_email t s)) ! i) = password_hash (users s ! i) \<and>
      company_name (users (snd (confirm_email t s)) ! i) = company_name (users s ! i) \<and>
      role (users (snd (confirm_email t s)) ! i) = role (users s ! i) \<and>
      session_user_id (snd (confirm_email t s)) = session_user_id s \<and>
      outbox (snd (confirm_email t s)) = outbox s \<and>
      stdout (snd (confirm_email t s)) = stdout s"
  proof (intro exI [of _ i] conjI)
    show "i < length (users s)" by fact
    show "confirm_token (users s ! i) = Some t" by fact
    show "\<forall>j < i. confirm_token (users s ! j) \<noteq> Some t" by fact
    show "snd (confirm_email t s)
        = s\<lparr>users := (users s)[i := (users s ! i)\<lparr>is_confirmed := True,
                                                    confirm_token := None\<rparr>]\<rparr>" by fact
  qed (simp_all add: eq fr(1))
qed

theorem confirm_email_frame_witness:
  "fst (confirm_email ''tok-bob'' (run test_env [register_ann, register_bob] init)) = Inr () \<and>
   users (snd (confirm_email ''tok-bob'' (run test_env [register_ann, register_bob] init)))
     = [users (run test_env [register_ann, register_bob] init) ! 0,
        (users (run test_env [register_ann, register_bob] init) ! 1)
          \<lparr>is_confirmed := True, confirm_token := None\<rparr>] \<and>
   map (\<lambda>u. (id' u, email u, company_name u, role u, is_confirmed u, confirm_token u))
     (users (snd (confirm_email ''tok-bob'' (run test_env [register_ann, register_bob] init))))
     = [(1, ''ann@acme.example'', Some ''Acme'', None, False, Some ''tok-ann''),
        (2, ''bob@acme.example'', None, Some ''editor'', True, None)]"
  using confirm_email_frame [of "''tok-bob''" "run test_env [register_ann, register_bob] init"]
  by (simp add: route_defs fixture_defs)

end
